theory Spec2Isabelle
  imports Complex_Main
begin

section \<open>The one-dimensional heat equation solver of heat\_equation.py\<close>

text \<open>
  The class \<^verbatim>\<open>HeatEquationSolver\<close> is embedded with explicit state passing: a method
  takes the object and returns the object it leaves behind. Every Python exception the
  methods can raise is a value of \<open>error\<close>, and a method returns \<open>error + result\<close>.

  Modelling decisions.
  \<^item> A Python \<^verbatim>\<open>float\<close> is an exact real number: rounding, overflow and underflow of
    IEEE-754 doubles are outside the model, and so is the conversion of a huge \<^verbatim>\<open>int\<close>.
    The exact model never raises OverflowError.
  \<^item> The stability check compares the rounded \<open>r\<close> with \<open>0.5\<close>, so for it \<^verbatim>\<open>solve\<close> is
    given a second time with the arithmetic of floats left open (\<open>solve_fp\<close>): the floats
    are any type, and every operation on them is a parameter of which nothing is assumed.
  \<^item> The configuration is the dictionary \<^verbatim>\<open>json.load\<close> returned; its values are JSON
    integers, JSON reals and JSON strings. Reading the file is not modelled: \<open>init\<close>
    starts from the loaded dictionary.
  \<^item> When a method raises, the model returns the exception alone.
  \<^item> The text \<^verbatim>\<open>solve\<close> prints is kept as a list of messages; the stability warning
    carries the number \<open>r\<close> it reports.
\<close>

subsection \<open>Values, exceptions, dynamic typing\<close>

datatype pyval = PInt int | PFloat real | PStr string

datatype error = KeyError string | TypeError | ZeroDivisionError | IndexError | OverflowError

type_synonym config = "string \<rightharpoonup> pyval"

definition and_then :: "error + 'a \<Rightarrow> ('a \<Rightarrow> error + 'b) \<Rightarrow> error + 'b" where
  "and_then m f = (case m of Inl e \<Rightarrow> Inl e | Inr x \<Rightarrow> f x)"

text \<open>\<^verbatim>\<open>d[k]\<close> on a dictionary.\<close>

definition getitem :: "config \<Rightarrow> string \<Rightarrow> error + pyval" where
  "getitem d k = (case d k of None \<Rightarrow> Inl (KeyError k) | Some v \<Rightarrow> Inr v)"

text \<open>The number a value stands for in float arithmetic; a string is no number.\<close>

fun to_float :: "pyval \<Rightarrow> real option" where
  "to_float (PInt n) = Some (of_int n)"
| "to_float (PFloat x) = Some x"
| "to_float (PStr s) = None"

text \<open>\<^verbatim>\<open>v - k\<close> for an integer literal \<open>k\<close>.\<close>

fun py_sub_int :: "pyval \<Rightarrow> int \<Rightarrow> error + pyval" where
  "py_sub_int (PInt n) k = Inr (PInt (n - k))"
| "py_sub_int (PFloat x) k = Inr (PFloat (x - of_int k))"
| "py_sub_int (PStr s) k = Inl TypeError"

text \<open>\<^verbatim>\<open>a / b\<close>, true division: the result is a float.\<close>

definition py_truediv :: "pyval \<Rightarrow> pyval \<Rightarrow> error + real" where
  "py_truediv a b =
     (case (to_float a, to_float b) of
        (Some x, Some y) \<Rightarrow> if y = 0 then Inl ZeroDivisionError else Inr (x / y)
      | _ \<Rightarrow> Inl TypeError)"

text \<open>\<^verbatim>\<open>[x] * n\<close>: only an integer repeats a list; a negative one gives the empty list.\<close>

fun list_repeat :: "real \<Rightarrow> pyval \<Rightarrow> error + real list" where
  "list_repeat x (PInt n) = Inr (replicate (nat n) x)"
| "list_repeat x (PFloat y) = Inl TypeError"
| "list_repeat x (PStr s) = Inl TypeError"

text \<open>\<^verbatim>\<open>v // k\<close> for a non-zero integer literal \<open>k\<close>: floor division.\<close>

fun py_floordiv_int :: "pyval \<Rightarrow> int \<Rightarrow> error + pyval" where
  "py_floordiv_int (PInt n) k = Inr (PInt (n div k))"
| "py_floordiv_int (PFloat x) k = Inr (PFloat (of_int \<lfloor>x / of_int k\<rfloor>))"
| "py_floordiv_int (PStr s) k = Inl TypeError"

text \<open>\<^verbatim>\<open>xs[i] = v\<close>: a negative index counts from the end.\<close>

fun list_setitem :: "real list \<Rightarrow> pyval \<Rightarrow> real \<Rightarrow> error + real list" where
  "list_setitem xs (PInt i) v =
     (if 0 \<le> i \<and> i < int (length xs) then Inr (xs[nat i := v])
      else if - int (length xs) \<le> i \<and> i < 0 then Inr (xs[nat (int (length xs) + i) := v])
      else Inl IndexError)"
| "list_setitem xs (PFloat y) v = Inl TypeError"
| "list_setitem xs (PStr s) v = Inl TypeError"

text \<open>\<^verbatim>\<open>a * x\<close> for a float \<open>x\<close>.\<close>

definition py_mul_float :: "pyval \<Rightarrow> real \<Rightarrow> error + real" where
  "py_mul_float a x = (case to_float a of Some y \<Rightarrow> Inr (y * x) | None \<Rightarrow> Inl TypeError)"

text \<open>\<^verbatim>\<open>x / y\<close> on two floats.\<close>

definition float_truediv :: "real \<Rightarrow> real \<Rightarrow> error + real" where
  "float_truediv x y = (if y = 0 then Inl ZeroDivisionError else Inr (x / y))"

text \<open>\<^verbatim>\<open>range(n)\<close> under \<^verbatim>\<open>for _ in\<close>: the number of iterations.\<close>

fun py_range :: "pyval \<Rightarrow> error + nat" where
  "py_range (PInt n) = Inr (nat n)"
| "py_range (PFloat y) = Inl TypeError"
| "py_range (PStr s) = Inl TypeError"

text \<open>\<^verbatim>\<open>range(1, m)\<close>: the indices it yields, which are positive.\<close>

fun py_range_from_1 :: "pyval \<Rightarrow> error + nat list" where
  "py_range_from_1 (PInt m) = Inr [1..<nat m]"
| "py_range_from_1 (PFloat y) = Inl TypeError"
| "py_range_from_1 (PStr s) = Inl TypeError"

subsection \<open>The solver object\<close>

record HeatEquationSolver =
  config :: config
  u :: "real list"
  dx :: real
  dt :: real

datatype message = StabilityWarning real

record outcome =
  history :: "real list list"
  stdout :: "message list"
  self_after :: HeatEquationSolver

subsection \<open>\_initialize\_grid and \_\_init\_\_\<close>

definition initialize_grid :: "HeatEquationSolver \<Rightarrow> error + HeatEquationSolver" where
  "initialize_grid self =
     and_then (getitem (config self) ''length'') (\<lambda>domain_length.
     and_then (getitem (config self) ''num_points_x'') (\<lambda>nx.
     and_then (getitem (config self) ''total_time'') (\<lambda>total_time.
     and_then (getitem (config self) ''num_points_t'') (\<lambda>nt.
     and_then (py_sub_int nx 1) (\<lambda>nx1.
     and_then (py_truediv domain_length nx1) (\<lambda>new_dx.
     and_then (py_truediv total_time nt) (\<lambda>new_dt.
     and_then (list_repeat 0 nx) (\<lambda>zeros.
     and_then (py_floordiv_int nx 2) (\<lambda>mid_point.
     and_then (list_setitem zeros mid_point 1) (\<lambda>spike.
       Inr (self\<lparr>dx := new_dx, dt := new_dt, u := spike\<rparr>)))))))))))"

text \<open>\<^verbatim>\<open>__init__\<close>, from the dictionary \<^verbatim>\<open>_load_config\<close> returned.\<close>

definition init :: "config \<Rightarrow> error + HeatEquationSolver" where
  "init cfg = initialize_grid \<lparr>config = cfg, u = [], dx = 0, dt = 0\<rparr>"

subsection \<open>solve\<close>

text \<open>
  The inner loop \<^verbatim>\<open>for i in range(1, nx - 1)\<close>. It reads \<^verbatim>\<open>self.u\<close> at \<open>i - 1\<close>,
  \<open>i\<close> and \<open>i + 1\<close>, where \<open>i\<close> is positive, and writes \<^verbatim>\<open>u_new[i]\<close>; Python raises
  IndexError when one of them is out of range.
\<close>

fun update_interior :: "real \<Rightarrow> real list \<Rightarrow> real list \<Rightarrow> nat list \<Rightarrow> error + real list" where
  "update_interior r cur u_new [] = Inr u_new"
| "update_interior r cur u_new (i # rest) =
     (if i + 1 < length cur \<and> i < length u_new
      then update_interior r cur
             (u_new[i := cur ! i + r * (cur ! (i + 1) - 2 * cur ! i + cur ! (i - 1))]) rest
      else Inl IndexError)"

text \<open>
  The outer loop \<^verbatim>\<open>for _ in range(nt)\<close>, on the iterations left: \<open>cur\<close> is \<^verbatim>\<open>self.u\<close>
  and \<open>results\<close> the list built so far.
\<close>

fun time_steps ::
  "real \<Rightarrow> pyval \<Rightarrow> nat \<Rightarrow> real list \<Rightarrow> real list list \<Rightarrow> error + (real list \<times> real list list)" where
  "time_steps r nx 0 cur results = Inr (cur, results)"
| "time_steps r nx (Suc n) cur results =
     and_then (py_sub_int nx 1) (\<lambda>nx1.
     and_then (py_range_from_1 nx1) (\<lambda>idxs.
     and_then (update_interior r cur cur idxs) (\<lambda>u_new.
       time_steps r nx n u_new (results @ [u_new]))))"

definition solve :: "HeatEquationSolver \<Rightarrow> error + outcome" where
  "solve self =
     and_then (getitem (config self) ''alpha'') (\<lambda>alpha.
     and_then (getitem (config self) ''num_points_x'') (\<lambda>nx.
     and_then (getitem (config self) ''num_points_t'') (\<lambda>nt.
     and_then (py_mul_float alpha (dt self)) (\<lambda>alpha_dt.
     and_then (float_truediv alpha_dt ((dx self)\<^sup>2)) (\<lambda>r.
     and_then (py_range nt) (\<lambda>n.
     and_then (time_steps r nx n (u self) [u self]) (\<lambda>(u_final, results).
       Inr \<lparr>history = results,
            stdout = (if r > 0.5 then [StabilityWarning r] else []),
            self_after = self\<lparr>u := u_final\<rparr>\<rparr>)))))))"

subsection \<open>solve with the arithmetic of floats left open\<close>

text \<open>
  The values of the configuration, the solver object and the result of \<^verbatim>\<open>solve\<close>, over a
  type \<open>'f\<close> of floats.
\<close>

datatype 'f pyval_fp = PInt_fp int | PFloat_fp 'f | PStr_fp string

text \<open>
  The operations of floats that \<^verbatim>\<open>solve\<close> uses: the conversion of an \<^verbatim>\<open>int\<close> operand
  (OverflowError for a huge one), \<open>+\<close>, \<open>-\<close>, \<open>*\<close>, \<open>/\<close> (ZeroDivisionError),
  \<^verbatim>\<open>x ** 2\<close> (OverflowError), \<open>>\<close>, the literal \<open>0.5\<close>, and the floats that the
  literals \<open>1\<close> and \<open>2\<close> convert to.
\<close>

record 'f float_ops =
  float_of_int :: "int \<Rightarrow> error + 'f"
  float_add :: "'f \<Rightarrow> 'f \<Rightarrow> 'f"
  float_sub :: "'f \<Rightarrow> 'f \<Rightarrow> 'f"
  float_mul :: "'f \<Rightarrow> 'f \<Rightarrow> 'f"
  float_div :: "'f \<Rightarrow> 'f \<Rightarrow> error + 'f"
  float_pow2 :: "'f \<Rightarrow> error + 'f"
  float_gt :: "'f \<Rightarrow> 'f \<Rightarrow> bool"
  float_half :: 'f
  float_one :: 'f
  float_two :: 'f





text \<open>\<^verbatim>\<open>a * x\<close> for a float \<open>x\<close>: an \<^verbatim>\<open>int\<close> is converted first.\<close>

fun py_mul_float_fp :: "'f float_ops \<Rightarrow> 'f pyval_fp \<Rightarrow> 'f \<Rightarrow> error + 'f" where
  "py_mul_float_fp ar (PInt_fp n) x = and_then (float_of_int ar n) (\<lambda>y. Inr (float_mul ar y x))"
| "py_mul_float_fp ar (PFloat_fp y) x = Inr (float_mul ar y x)"
| "py_mul_float_fp ar (PStr_fp s) x = Inl TypeError"

text \<open>
  \<^verbatim>\<open>alpha * self.dt / (self.dx ** 2)\<close>: the product, then the square, then the quotient.
\<close>

definition diffusion_number_fp :: "'f float_ops \<Rightarrow> 'f pyval_fp \<Rightarrow> 'f \<Rightarrow> 'f \<Rightarrow> error + 'f" where
  "diffusion_number_fp ar alpha dt_v dx_v =
     and_then (py_mul_float_fp ar alpha dt_v) (\<lambda>alpha_dt.
     and_then (float_pow2 ar dx_v) (\<lambda>dx2.
       float_div ar alpha_dt dx2))"

text \<open>\<^verbatim>\<open>v - 1\<close>, \<^verbatim>\<open>range(n)\<close> and \<^verbatim>\<open>range(1, m)\<close>, as above.\<close>

fun py_sub_1_fp :: "'f float_ops \<Rightarrow> 'f pyval_fp \<Rightarrow> error + 'f pyval_fp" where
  "py_sub_1_fp ar (PInt_fp n) = Inr (PInt_fp (n - 1))"
| "py_sub_1_fp ar (PFloat_fp x) = Inr (PFloat_fp (float_sub ar x (float_one ar)))"
| "py_sub_1_fp ar (PStr_fp s) = Inl TypeError"


fun py_range_from_1_fp :: "'f pyval_fp \<Rightarrow> error + nat list" where
  "py_range_from_1_fp (PInt_fp m) = Inr [1..<nat m]"
| "py_range_from_1_fp (PFloat_fp y) = Inl TypeError"
| "py_range_from_1_fp (PStr_fp s) = Inl TypeError"

text \<open>The two loops and \<^verbatim>\<open>solve\<close>, as above, with the operations of \<open>ar\<close>.\<close>

fun update_interior_fp ::
  "'f float_ops \<Rightarrow> 'f \<Rightarrow> 'f list \<Rightarrow> 'f list \<Rightarrow> nat list \<Rightarrow> error + 'f list" where
  "update_interior_fp ar r cur u_new [] = Inr u_new"
| "update_interior_fp ar r cur u_new (i # rest) =
     (if i + 1 < length cur \<and> i < length u_new
      then update_interior_fp ar r cur
             (u_new[i := float_add ar (cur ! i)
                (float_mul ar r
                  (float_add ar
                    (float_sub ar (cur ! (i + 1)) (float_mul ar (float_two ar) (cur ! i)))
                    (cur ! (i - 1))))]) rest
      else Inl IndexError)"

fun time_steps_fp ::
  "'f float_ops \<Rightarrow> 'f \<Rightarrow> 'f pyval_fp \<Rightarrow> nat \<Rightarrow> 'f list \<Rightarrow> 'f list list \<Rightarrow>
     error + ('f list \<times> 'f list list)" where
  "time_steps_fp ar r nx 0 cur results = Inr (cur, results)"
| "time_steps_fp ar r nx (Suc n) cur results =
     and_then (py_sub_1_fp ar nx) (\<lambda>nx1.
     and_then (py_range_from_1_fp nx1) (\<lambda>idxs.
     and_then (update_interior_fp ar r cur cur idxs) (\<lambda>u_new.
       time_steps_fp ar r nx n u_new (results @ [u_new]))))"







subsection \<open>Valid configurations and the specification's step\<close>

text \<open>
  The valid configurations of section 3 of the specification: the five required keys
  are present, \<^verbatim>\<open>num_points_x\<close> and \<^verbatim>\<open>num_points_t\<close> are integers, the other three are
  numbers, and the ranges hold. \<open>L\<close>, \<open>nx\<close>, \<open>T\<close>, \<open>nt\<close> and \<open>a\<close> are the values of
  \<^verbatim>\<open>length\<close>, \<^verbatim>\<open>num_points_x\<close>, \<^verbatim>\<open>total_time\<close>, \<^verbatim>\<open>num_points_t\<close> and \<^verbatim>\<open>alpha\<close>.
  \<open>valid_grid_config\<close> is the part on the four keys of the grid.
\<close>

definition valid_grid_config :: "config \<Rightarrow> real \<Rightarrow> int \<Rightarrow> real \<Rightarrow> int \<Rightarrow> bool" where
  "valid_grid_config cfg L nx T nt \<longleftrightarrow>
     Option.bind (cfg ''length'') to_float = Some L \<and> 0 < L \<and>
     cfg ''num_points_x'' = Some (PInt nx) \<and> 3 \<le> nx \<and>
     Option.bind (cfg ''total_time'') to_float = Some T \<and> 0 < T \<and>
     cfg ''num_points_t'' = Some (PInt nt) \<and> 1 \<le> nt"

definition valid_config :: "config \<Rightarrow> real \<Rightarrow> int \<Rightarrow> real \<Rightarrow> int \<Rightarrow> real \<Rightarrow> bool" where
  "valid_config cfg L nx T nt a \<longleftrightarrow>
     valid_grid_config cfg L nx T nt \<and>
     Option.bind (cfg ''alpha'') to_float = Some a \<and> 0 < a"

text \<open>
  Specification-level functions, written from section 4.1 of the specification and not
  from the code: \<open>spec_step\<close> is one time step on a whole field (a copy of the field
  whose interior entries are replaced by the recurrence), and \<open>spec_history\<close> is the field
  followed by its \<open>k\<close> successive steps. The lemmas below prove that the loops of
  \<^verbatim>\<open>solve\<close> compute them.
\<close>

definition spec_step :: "real \<Rightarrow> real list \<Rightarrow> real list" where
  "spec_step r v =
     map (\<lambda>i. if 1 \<le> i \<and> i + 1 < length v
              then v ! i + r * (v ! (i + 1) - 2 * v ! i + v ! (i - 1))
              else v ! i) [0..<length v]"

fun spec_history :: "real \<Rightarrow> real list \<Rightarrow> nat \<Rightarrow> real list list" where
  "spec_history r v 0 = [v]"
| "spec_history r v (Suc k) = v # spec_history r (spec_step r v) k"

text \<open>A small valid configuration, with \<open>r = 1/8\<close>, on which the theorems are tried.\<close>

definition demo_config :: config where
  "demo_config =
     [''length'' \<mapsto> PFloat 1, ''num_points_x'' \<mapsto> PInt 5, ''total_time'' \<mapsto> PFloat 1,
      ''num_points_t'' \<mapsto> PInt 2, ''alpha'' \<mapsto> PFloat (1/64),
      ''output_file'' \<mapsto> PStr ''output.csv'']"



text \<open>The demonstration configuration without \<^verbatim>\<open>alpha\<close>, and without \<^verbatim>\<open>total_time\<close>.\<close>

definition no_alpha_config :: config where
  "no_alpha_config =
     [''length'' \<mapsto> PFloat 1, ''num_points_x'' \<mapsto> PInt 5, ''total_time'' \<mapsto> PFloat 1,
      ''num_points_t'' \<mapsto> PInt 2]"

definition no_total_time_config :: config where
  "no_total_time_config =
     [''length'' \<mapsto> PFloat 1, ''num_points_x'' \<mapsto> PInt 5,
      ''num_points_t'' \<mapsto> PInt 2, ''alpha'' \<mapsto> PFloat (1/64)]"

subsection \<open>The loops compute the specification's step\<close>

lemma and_then_Inl [simp]: "and_then (Inl e) f = Inl e"
  by (simp add: and_then_def)

lemma and_then_Inr [simp]: "and_then (Inr x) f = f x"
  by (simp add: and_then_def)

lemma update_interior_nth:
  "length w = length v \<Longrightarrow> \<forall>i\<in>set idxs. i + 1 < length v \<Longrightarrow>
   \<exists>w'. update_interior r v w idxs = Inr w' \<and> length w' = length v \<and>
     (\<forall>j<length v. w' ! j =
        (if j \<in> set idxs then v ! j + r * (v ! (j + 1) - 2 * v ! j + v ! (j - 1)) else w ! j))"
proof (induction idxs arbitrary: w)
  case Nil
  then show ?case by simp
next
  case (Cons i idxs)
  let ?w = "w[i := v ! i + r * (v ! (i + 1) - 2 * v ! i + v ! (i - 1))]"
  have len: "length ?w = length v" using Cons.prems(1) by simp
  have rng: "\<forall>k\<in>set idxs. k + 1 < length v" using Cons.prems(2) by simp
  from Cons.IH [OF len rng] obtain w' where
    w': "update_interior r v ?w idxs = Inr w'" "length w' = length v"
      "\<forall>j<length v. w' ! j =
        (if j \<in> set idxs then v ! j + r * (v ! (j + 1) - 2 * v ! j + v ! (j - 1)) else ?w ! j)"
    by blast
  have i: "i + 1 < length v" "i < length w" using Cons.prems by simp_all
  have "update_interior r v w (i # idxs) = Inr w'" using i w'(1) by simp
  moreover have "\<forall>j<length v. w' ! j =
        (if j \<in> set (i # idxs) then v ! j + r * (v ! (j + 1) - 2 * v ! j + v ! (j - 1)) else w ! j)"
    using w'(3) i(2) by (auto simp: nth_list_update)
  ultimately show ?case using w'(2) by blast
qed

lemma update_interior_spec_step:
  "update_interior r v v [1..<length v - 1] = Inr (spec_step r v)"
proof -
  have "\<forall>i\<in>set [1..<length v - 1]. i + 1 < length v" by auto
  from update_interior_nth [OF refl this, of r] obtain w' where
    w': "update_interior r v v [1..<length v - 1] = Inr w'" "length w' = length v"
      "\<forall>j<length v. w' ! j =
        (if j \<in> set [1..<length v - 1]
         then v ! j + r * (v ! (j + 1) - 2 * v ! j + v ! (j - 1)) else v ! j)"
    by blast
  have "w' = spec_step r v"
  proof (rule nth_equalityI)
    show "length w' = length (spec_step r v)" using w'(2) by (simp add: spec_step_def)
  next
    fix j assume "j < length w'"
    then have j: "j < length v" using w'(2) by simp
    have "(j \<in> set [1..<length v - 1]) = (1 \<le> j \<and> j + 1 < length v)" by auto
    then show "w' ! j = spec_step r v ! j"
      using w'(3) j by (simp add: spec_step_def)
  qed
  then show ?thesis using w'(1) by simp
qed

lemma length_spec_step [simp]: "length (spec_step r v) = length v"
  by (simp add: spec_step_def)

lemma spec_history_nonempty [simp]: "spec_history r v k \<noteq> []"
  by (cases k) simp_all

lemma time_steps_spec:
  "time_steps r (PInt (int (length v))) k v (pre @ [v]) =
     Inr (last (spec_history r v k), pre @ spec_history r v k)"
proof (induction k arbitrary: v pre)
  case 0
  then show ?case by simp
next
  case (Suc k)
  have idx: "nat (int (length v) - 1) = length v - 1" by simp
  have "time_steps r (PInt (int (length v))) (Suc k) v (pre @ [v]) =
          time_steps r (PInt (int (length (spec_step r v)))) k (spec_step r v)
            ((pre @ [v]) @ [spec_step r v])"
    using update_interior_spec_step [of r v] by (simp add: idx)
  also have "\<dots> = Inr (last (spec_history r (spec_step r v) k),
                      (pre @ [v]) @ spec_history r (spec_step r v) k)"
    by (rule Suc.IH)
  finally show ?case by simp
qed

lemma length_spec_history [simp]: "length (spec_history r v k) = Suc k"
  by (induction k arbitrary: v) simp_all

lemma spec_history_0 [simp]: "spec_history r v k ! 0 = v"
  by (cases k) simp_all

lemma spec_history_Suc:
  "t < k \<Longrightarrow> spec_history r v k ! Suc t = spec_step r (spec_history r v k ! t)"
proof (induction k arbitrary: v t)
  case 0
  then show ?case by simp
next
  case (Suc k)
  show ?case
  proof (cases t)
    case 0
    then show ?thesis by simp
  next
    case (Suc t')
    then have "t' < k" using Suc.prems by simp
    from Suc.IH [OF this] show ?thesis using Suc by simp
  qed
qed

lemma spec_history_lengths: "w \<in> set (spec_history r v k) \<Longrightarrow> length w = length v"
  by (induction k arbitrary: v) auto

lemma init_valid_grid:
  assumes "valid_grid_config cfg L nx T nt"
  shows "init cfg = Inr \<lparr>config = cfg, u = (replicate (nat nx) 0)[nat (nx div 2) := 1],
                          dx = L / of_int (nx - 1), dt = T / of_int nt\<rparr>"
proof -
  obtain l where l: "cfg ''length'' = Some l" "to_float l = Some L"
    using assms by (auto simp: valid_grid_config_def Option.bind_eq_Some_conv)
  obtain tt where tt: "cfg ''total_time'' = Some tt" "to_float tt = Some T"
    using assms by (auto simp: valid_grid_config_def Option.bind_eq_Some_conv)
  have nx: "cfg ''num_points_x'' = Some (PInt nx)" "3 \<le> nx"
    and nt: "cfg ''num_points_t'' = Some (PInt nt)" "1 \<le> nt"
    using assms by (simp_all add: valid_grid_config_def)
  have "nx div 2 < nx" "0 \<le> nx div 2" using nx(2) by simp_all
  then show ?thesis
    using l tt nx nt
    by (simp add: init_def initialize_grid_def getitem_def py_truediv_def)
qed

lemma init_valid:
  assumes "valid_config cfg L nx T nt a"
  shows "init cfg = Inr \<lparr>config = cfg, u = (replicate (nat nx) 0)[nat (nx div 2) := 1],
                          dx = L / of_int (nx - 1), dt = T / of_int nt\<rparr>"
proof -
  have "valid_grid_config cfg L nx T nt" using assms by (simp add: valid_config_def)
  then show ?thesis by (rule init_valid_grid)
qed

lemma solve_valid:
  assumes "valid_config (config s) L nx T nt a" and "length (u s) = nat nx" and "dx s \<noteq> 0"
  shows "solve s = Inr \<lparr>history = spec_history (a * dt s / (dx s)\<^sup>2) (u s) (nat nt),
           stdout = (if 0.5 < a * dt s / (dx s)\<^sup>2 then [StabilityWarning (a * dt s / (dx s)\<^sup>2)] else []),
           self_after = s\<lparr>u := last (spec_history (a * dt s / (dx s)\<^sup>2) (u s) (nat nt))\<rparr>\<rparr>"
proof -
  obtain al where al: "config s ''alpha'' = Some al" "to_float al = Some a"
    using assms(1) by (auto simp: valid_config_def Option.bind_eq_Some_conv)
  have nx: "config s ''num_points_x'' = Some (PInt nx)" "3 \<le> nx"
    and nt: "config s ''num_points_t'' = Some (PInt nt)" "1 \<le> nt"
    using assms(1) by (simp_all add: valid_config_def valid_grid_config_def)
  have nxl: "PInt nx = PInt (int (length (u s)))" using assms(2) nx(2) by simp
  have ts: "time_steps r (PInt nx) k (u s) [u s] =
      Inr (last (spec_history r (u s) k), spec_history r (u s) k)" for r k
    using time_steps_spec [of r "u s" k "[]"] unfolding nxl by simp
  show ?thesis
    using al nx(1) nt(1) assms(3)
    by (simp add: solve_def getitem_def py_mul_float_def float_truediv_def ts)
qed

lemma spec_step_nth:
  "i < length v \<Longrightarrow> spec_step r v ! i =
     (if 1 \<le> i \<and> i + 1 < length v
      then v ! i + r * (v ! (i + 1) - 2 * v ! i + v ! (i - 1)) else v ! i)"
  by (simp add: spec_step_def)

lemma spec_history_nth_length:
  "t \<le> k \<Longrightarrow> length (spec_history r v k ! t) = length v"
  by (rule spec_history_lengths [of _ r v k]) simp

lemma spec_history_boundary:
  "t \<le> k \<Longrightarrow> v \<noteq> [] \<Longrightarrow>
   spec_history r v k ! t ! 0 = v ! 0 \<and>
   spec_history r v k ! t ! (length v - 1) = v ! (length v - 1)"
proof (induction t)
  case 0
  then show ?case by simp
next
  case (Suc t)
  then have t: "t < k" "t \<le> k" by simp_all
  let ?w = "spec_history r v k ! t"
  have len: "length ?w = length v" by (rule spec_history_nth_length [OF t(2)])
  have pos: "0 < length ?w" using len Suc.prems(2) by simp
  have "spec_step r ?w ! 0 = ?w ! 0" using pos by (simp add: spec_step_nth)
  moreover have "spec_step r ?w ! (length ?w - 1) = ?w ! (length ?w - 1)"
    using pos by (simp add: spec_step_nth)
  ultimately show ?case
    using Suc.IH [OF t(2) Suc.prems(2)] spec_history_Suc [OF t(1), of r v] len by simp
qed

lemma first_solve:
  assumes "valid_config cfg L nx T nt a"
  defines "s \<equiv> \<lparr>config = cfg, u = (replicate (nat nx) 0)[nat (nx div 2) := 1],
                  dx = L / of_int (nx - 1), dt = T / of_int nt\<rparr>"
  defines "r \<equiv> a * (T / of_int nt) / (L / of_int (nx - 1))\<^sup>2"
  shows "init cfg = Inr s"
    and "solve s = Inr \<lparr>history = spec_history r (u s) (nat nt),
           stdout = (if 0.5 < r then [StabilityWarning r] else []),
           self_after = s\<lparr>u := last (spec_history r (u s) (nat nt))\<rparr>\<rparr>"
proof -
  show "init cfg = Inr s" unfolding s_def by (rule init_valid [OF assms(1)])
  have "0 < L" "3 \<le> nx"
    using assms(1) by (simp_all add: valid_config_def valid_grid_config_def)
  then have d: "dx s \<noteq> 0" by (simp add: s_def)
  have v: "valid_config (config s) L nx T nt a" using assms(1) by (simp add: s_def)
  have l: "length (u s) = nat nx" by (simp add: s_def)
  have r: "a * dt s / (dx s)\<^sup>2 = r" by (simp add: s_def r_def)
  show "solve s = Inr \<lparr>history = spec_history r (u s) (nat nt),
           stdout = (if 0.5 < r then [StabilityWarning r] else []),
           self_after = s\<lparr>u := last (spec_history r (u s) (nat nt))\<rparr>\<rparr>"
    using solve_valid [OF v l d] unfolding r .
qed

subsection \<open>The object solve leaves behind\<close>

lemma time_steps_last:
  "time_steps r nx n cur (pre @ [cur]) = Inr (c', res') \<Longrightarrow> res' \<noteq> [] \<and> last res' = c'"
proof (induction n arbitrary: cur pre)
  case 0
  then show ?case by auto
next
  case (Suc n)
  from Suc.prems obtain nx1 idxs u_new where
    "time_steps r nx n u_new ((pre @ [cur]) @ [u_new]) = Inr (c', res')"
    by (auto simp: and_then_def split: sum.splits)
  then show ?case by (rule Suc.IH)
qed

subsection \<open>solve over any arithmetic of floats\<close>



lemma update_interior_fp_gt [simp]:
  "update_interior_fp (ar\<lparr>float_gt := g\<rparr>) r cur w idxs = update_interior_fp ar r cur w idxs"
  by (induction idxs arbitrary: w) simp_all

lemma py_sub_1_fp_gt [simp]: "py_sub_1_fp (ar\<lparr>float_gt := g\<rparr>) v = py_sub_1_fp ar v"
  by (cases v) simp_all

lemma time_steps_fp_gt [simp]:
  "time_steps_fp (ar\<lparr>float_gt := g\<rparr>) r nx k cur res = time_steps_fp ar r nx k cur res"
  by (induction k arbitrary: cur res) simp_all

lemma py_mul_float_fp_gt [simp]:
  "py_mul_float_fp (ar\<lparr>float_gt := g\<rparr>) a x = py_mul_float_fp ar a x"
  by (cases a) simp_all

lemma diffusion_number_fp_gt [simp]:
  "diffusion_number_fp (ar\<lparr>float_gt := g\<rparr>) a x y = diffusion_number_fp ar a x y"
  by (simp add: diffusion_number_fp_def)








subsection \<open>The demonstration configuration, evaluated\<close>

lemma demo_valid: "valid_config demo_config 1 5 1 2 (1/64)"
  by (simp add: valid_config_def valid_grid_config_def demo_config_def)

lemma demo_init:
  "init demo_config = Inr \<lparr>config = demo_config, u = [0, 0, 1, 0, 0], dx = 1/4, dt = 1/2\<rparr>"
  using init_valid [OF demo_valid] by (simp add: numeral_eq_Suc)

lemma demo_solve:
  "solve \<lparr>config = demo_config, u = [0, 0, 1, 0, 0], dx = 1/4, dt = 1/2\<rparr> =
     Inr \<lparr>history = [[0, 0, 1, 0, 0], [0, 1/8, 3/4, 1/8, 0], [0, 3/16, 19/32, 3/16, 0]],
          stdout = [],
          self_after = \<lparr>config = demo_config, u = [0, 3/16, 19/32, 3/16, 0],
                         dx = 1/4, dt = 1/2\<rparr>\<rparr>"
  by (simp add: solve_def demo_config_def getitem_def py_mul_float_def float_truediv_def
      eval_nat_numeral upt_conv_Cons power2_eq_square)





lemma no_alpha_grid: "valid_grid_config no_alpha_config 1 5 1 2"
  by (simp add: valid_grid_config_def no_alpha_config_def)

section \<open>The claims\<close>

text \<open>
  C1. For every valid configuration, with \<open>dx = length / (num_points_x - 1)\<close>,
  \<open>dt = total_time / num_points_t\<close> and \<open>r = alpha * dt / dx\<^sup>2\<close>, every time step of the first
  \<^verbatim>\<open>solve\<close> turns the field \<open>history ! t\<close> into a field \<open>history ! (t + 1)\<close> whose entry
  at every interior index \<open>i\<close> in \<open>1 .. num_points_x - 2\<close> is
  \<open>field[i] + r * (field[i+1] - 2 * field[i] + field[i-1])\<close>.
\<close>

theorem solve_interior_recurrence:
  assumes "valid_config cfg L nx T nt a"
  shows "\<exists>s out. init cfg = Inr s \<and> solve s = Inr out \<and>
           dx s = L / of_int (nx - 1) \<and> dt s = T / of_int nt \<and>
           (\<forall>t i. t < nat nt \<and> 1 \<le> i \<and> i \<le> nat nx - 2 \<longrightarrow>
              history out ! Suc t ! i =
                history out ! t ! i +
                (a * dt s / (dx s)\<^sup>2) *
                  (history out ! t ! (i + 1) - 2 * history out ! t ! i + history out ! t ! (i - 1)))"
proof -
  let ?s = "\<lparr>config = cfg, u = (replicate (nat nx) 0)[nat (nx div 2) := 1],
             dx = L / of_int (nx - 1), dt = T / of_int nt\<rparr>"
  let ?r = "a * (T / of_int nt) / (L / of_int (nx - 1))\<^sup>2"
  let ?h = "spec_history ?r (u ?s) (nat nt)"
  note fs = first_solve [OF assms]
  have nx: "3 \<le> nx" using assms by (simp add: valid_config_def valid_grid_config_def)
  have rec: "?h ! Suc t ! i =
      ?h ! t ! i + ?r * (?h ! t ! (i + 1) - 2 * ?h ! t ! i + ?h ! t ! (i - 1))"
    if "t < nat nt" "1 \<le> i" "i \<le> nat nx - 2" for t i
  proof -
    have len: "length (?h ! t) = nat nx"
      using spec_history_nth_length [of t "nat nt" ?r "u ?s"] that(1) by simp
    have i: "i < length (?h ! t)" "i + 1 < length (?h ! t)" using that(3) nx len by simp_all
    show ?thesis
      using spec_history_Suc [OF that(1), of ?r "u ?s"] spec_step_nth [OF i(1), of ?r] i(2) that(2)
      by simp
  qed
  show ?thesis
    apply (rule exI [of _ ?s])
    apply (rule exI)
    apply (intro conjI)
        apply (rule fs(1))
       apply (rule fs(2))
      apply simp
     apply simp
    using rec apply simp
    done
qed

theorem solve_interior_recurrence_witness:
  "valid_config demo_config 1 5 1 2 (1/64) \<and>
   (\<exists>s out. init demo_config = Inr s \<and> solve s = Inr out \<and>
      dx s = 1/4 \<and> dt s = 1/2 \<and>
      history out ! 1 ! 2 =
        history out ! 0 ! 2 +
        (1/8) * (history out ! 0 ! 3 - 2 * history out ! 0 ! 2 + history out ! 0 ! 1) \<and>
      history out ! 1 ! 2 = 3/4)"
proof -
  from solve_interior_recurrence [OF demo_valid] obtain s out where
    so: "init demo_config = Inr s" "solve s = Inr out" and
    rec: "\<forall>t i. t < nat 2 \<and> 1 \<le> i \<and> i \<le> nat 5 - 2 \<longrightarrow>
              history out ! Suc t ! i =
                history out ! t ! i +
                (1/64 * dt s / (dx s)\<^sup>2) *
                  (history out ! t ! (i + 1) - 2 * history out ! t ! i + history out ! t ! (i - 1))"
    by blast
  have s: "s = \<lparr>config = demo_config, u = [0, 0, 1, 0, 0], dx = 1/4, dt = 1/2\<rparr>"
    using so(1) by (simp add: demo_init)
  have out: "history out = [[0, 0, 1, 0, 0], [0, 1/8, 3/4, 1/8, 0], [0, 3/16, 19/32, 3/16, 0]]"
    using so(2) unfolding s by (auto simp: demo_solve)
  from rec have "0 < nat 2 \<and> (1::nat) \<le> 2 \<and> 2 \<le> nat 5 - 2 \<longrightarrow>
              history out ! Suc 0 ! 2 =
                history out ! 0 ! 2 +
                (1/64 * dt s / (dx s)\<^sup>2) *
                  (history out ! 0 ! (2 + 1) - 2 * history out ! 0 ! 2 + history out ! 0 ! (2 - 1))"
    by blast
  then have "history out ! 1 ! 2 =
        history out ! 0 ! 2 +
        (1/8) * (history out ! 0 ! 3 - 2 * history out ! 0 ! 2 + history out ! 0 ! 1)"
    by (simp add: s power2_eq_square)
  moreover have "history out ! 1 ! 2 = 3/4" by (simp add: out)
  moreover have "dx s = 1/4" "dt s = 1/2" by (simp_all add: s)
  ultimately show ?thesis using demo_valid so by blast
qed

text \<open>
  C2. For every valid configuration, the first call of \<^verbatim>\<open>solve\<close> on a freshly constructed
  solver returns a history of exactly \<open>num_points_t + 1\<close> entries, each of length
  \<open>num_points_x\<close>; its first entry is the initial field.
\<close>

theorem solve_history_shape:
  assumes "valid_config cfg L nx T nt a"
  shows "\<exists>s out. init cfg = Inr s \<and> solve s = Inr out \<and>
           length (history out) = nat nt + 1 \<and>
           (\<forall>h\<in>set (history out). length h = nat nx) \<and>
           history out ! 0 = u s"
  using first_solve [OF assms] by (auto dest: spec_history_lengths)

theorem solve_history_shape_witness:
  "valid_config demo_config 1 5 1 2 (1/64) \<and>
   (\<exists>s out. init demo_config = Inr s \<and> solve s = Inr out \<and>
           length (history out) = 3 \<and>
           list_all (\<lambda>h. length h = 5) (history out) \<and>
           history out ! 0 = [0, 0, 1, 0, 0])"
proof -
  from solve_history_shape [OF demo_valid] obtain s out where
    "init demo_config = Inr s" "solve s = Inr out" "length (history out) = nat 2 + 1"
    "\<forall>h\<in>set (history out). length h = nat 5" "history out ! 0 = u s"
    by blast
  then show ?thesis using demo_valid
    by (auto simp: demo_init list_all_iff)
qed

text \<open>
  C3. For every valid configuration and every snapshot index \<open>t\<close> in \<open>0 .. num_points_t\<close>
  of the history the first \<^verbatim>\<open>solve\<close> returns, the entries at index \<open>0\<close> and at index
  \<open>num_points_x - 1\<close> are zero.
\<close>

theorem solve_boundary_zero:
  assumes "valid_config cfg L nx T nt a"
  shows "\<exists>s out. init cfg = Inr s \<and> solve s = Inr out \<and>
           (\<forall>t. t \<le> nat nt \<longrightarrow>
              history out ! t ! 0 = 0 \<and> history out ! t ! (nat nx - 1) = 0)"
proof -
  let ?u = "(replicate (nat nx) (0::real))[nat (nx div 2) := 1]"
  have nx: "3 \<le> nx" using assms by (simp add: valid_config_def valid_grid_config_def)
  have ne: "?u \<noteq> []" using nx by simp
  have b: "?u ! 0 = 0" "?u ! (length ?u - 1) = 0" using nx by (simp_all add: nth_list_update)
  note fs = first_solve [OF assms]
  show ?thesis
    using fs spec_history_boundary [OF _ ne] b by auto
qed

theorem solve_boundary_zero_witness:
  "valid_config demo_config 1 5 1 2 (1/64) \<and>
   (\<exists>s out. init demo_config = Inr s \<and> solve s = Inr out \<and>
      history out ! 0 ! 0 = 0 \<and> history out ! 0 ! 4 = 0 \<and>
      history out ! 1 ! 0 = 0 \<and> history out ! 1 ! 4 = 0 \<and>
      history out ! 2 ! 0 = 0 \<and> history out ! 2 ! 4 = 0)"
proof -
  from solve_boundary_zero [OF demo_valid] obtain s out where
    so: "init demo_config = Inr s" "solve s = Inr out" and
    b: "\<forall>t. t \<le> nat 2 \<longrightarrow> history out ! t ! 0 = 0 \<and> history out ! t ! (nat 5 - 1) = 0"
    by blast
  have "history out ! 0 ! 0 = 0 \<and> history out ! 0 ! 4 = 0" using b [rule_format, of 0] by simp
  moreover have "history out ! 1 ! 0 = 0 \<and> history out ! 1 ! 4 = 0"
    using b [rule_format, of 1] by simp
  moreover have "history out ! 2 ! 0 = 0 \<and> history out ! 2 ! 4 = 0"
    using b [rule_format, of 2] by simp
  ultimately show ?thesis using demo_valid so by blast
qed

text \<open>
  C4. For every valid configuration, the first entry of the history the first \<^verbatim>\<open>solve\<close>
  returns is the unit impulse: \<open>1\<close> at index \<open>num_points_x div 2\<close> and \<open>0\<close> at every other
  index.
\<close>

theorem solve_first_entry_impulse:
  assumes "valid_config cfg L nx T nt a"
  shows "\<exists>s out. init cfg = Inr s \<and> solve s = Inr out \<and>
           length (history out ! 0) = nat nx \<and>
           nat (nx div 2) < nat nx \<and>
           history out ! 0 ! nat (nx div 2) = 1 \<and>
           (\<forall>i. i < nat nx \<and> i \<noteq> nat (nx div 2) \<longrightarrow> history out ! 0 ! i = 0)"
proof -
  have nx: "3 \<le> nx" using assms by (simp add: valid_config_def valid_grid_config_def)
  then have "nat (nx div 2) < nat nx" by simp
  then show ?thesis
    using first_solve [OF assms] by (auto simp: nth_list_update)
qed

theorem solve_first_entry_impulse_witness:
  "valid_config demo_config 1 5 1 2 (1/64) \<and>
   (\<exists>s out. init demo_config = Inr s \<and> solve s = Inr out \<and>
      length (history out ! 0) = 5 \<and> history out ! 0 ! 2 = 1 \<and>
      history out ! 0 ! 0 = 0 \<and> history out ! 0 ! 1 = 0 \<and>
      history out ! 0 ! 3 = 0 \<and> history out ! 0 ! 4 = 0)"
proof -
  from solve_first_entry_impulse [OF demo_valid] obtain s out where
    so: "init demo_config = Inr s" "solve s = Inr out" and
    l: "length (history out ! 0) = nat 5" and
    m: "history out ! 0 ! nat (5 div 2) = 1" and
    z: "\<forall>i. i < nat 5 \<and> i \<noteq> nat (5 div 2) \<longrightarrow> history out ! 0 ! i = 0"
    by blast
  have "history out ! 0 ! 0 = 0" "history out ! 0 ! 1 = 0"
    "history out ! 0 ! 3 = 0" "history out ! 0 ! 4 = 0"
    using z [rule_format, of 0] z [rule_format, of 1] z [rule_format, of 3] z [rule_format, of 4]
    by simp_all
  moreover have "length (history out ! 0) = 5" "history out ! 0 ! 2 = 1" using l m by simp_all
  ultimately show ?thesis using demo_valid so by blast
qed

text \<open>
  C5, as amended. The constructor reads four keys, \<^verbatim>\<open>length\<close>, \<^verbatim>\<open>num_points_x\<close>,
  \<^verbatim>\<open>total_time\<close> and \<^verbatim>\<open>num_points_t\<close>: constructing a solver from a configuration that
  lacks one of them fails at construction with the KeyError of a missing one of them.
  \<^verbatim>\<open>alpha\<close> is read by \<^verbatim>\<open>solve\<close> only: a configuration whose four grid keys are valid
  and that lacks \<^verbatim>\<open>alpha\<close> constructs a solver, and \<^verbatim>\<open>solve\<close> on it raises
  \<^verbatim>\<open>KeyError('alpha')\<close>.
\<close>

theorem missing_field_errors:
  "(cfg1 ''length'' = None \<or> cfg1 ''num_points_x'' = None \<or>
    cfg1 ''total_time'' = None \<or> cfg1 ''num_points_t'' = None \<longrightarrow>
      (\<exists>k. k \<in> {''length'', ''num_points_x'', ''total_time'', ''num_points_t''} \<and>
           cfg1 k = None \<and> init cfg1 = Inl (KeyError k))) \<and>
   (valid_grid_config cfg2 L nx T nt \<and> cfg2 ''alpha'' = None \<longrightarrow>
      (\<exists>s. init cfg2 = Inr s \<and> solve s = Inl (KeyError ''alpha'')))"
proof (intro conjI impI)
  assume m: "cfg1 ''length'' = None \<or> cfg1 ''num_points_x'' = None \<or>
    cfg1 ''total_time'' = None \<or> cfg1 ''num_points_t'' = None"
  show "\<exists>k. k \<in> {''length'', ''num_points_x'', ''total_time'', ''num_points_t''} \<and>
           cfg1 k = None \<and> init cfg1 = Inl (KeyError k)"
  proof (cases "cfg1 ''length''")
    case None
    then have "init cfg1 = Inl (KeyError ''length'')"
      by (simp add: init_def initialize_grid_def getitem_def)
    with None show ?thesis by blast
  next
    case l: (Some l)
    show ?thesis
    proof (cases "cfg1 ''num_points_x''")
      case None
      then have "init cfg1 = Inl (KeyError ''num_points_x'')"
        using l by (simp add: init_def initialize_grid_def getitem_def)
      with None show ?thesis by blast
    next
      case x: (Some x)
      show ?thesis
      proof (cases "cfg1 ''total_time''")
        case None
        then have "init cfg1 = Inl (KeyError ''total_time'')"
          using l x by (simp add: init_def initialize_grid_def getitem_def)
        with None show ?thesis by blast
      next
        case t: (Some t)
        then have n: "cfg1 ''num_points_t'' = None" using m l x by simp
        then have "init cfg1 = Inl (KeyError ''num_points_t'')"
          using l x t by (simp add: init_def initialize_grid_def getitem_def)
        with n show ?thesis by blast
      qed
    qed
  qed
next
  assume a: "valid_grid_config cfg2 L nx T nt \<and> cfg2 ''alpha'' = None"
  let ?s = "\<lparr>config = cfg2, u = (replicate (nat nx) 0)[nat (nx div 2) := 1],
             dx = L / of_int (nx - 1), dt = T / of_int nt\<rparr>"
  from a have "valid_grid_config cfg2 L nx T nt" by simp
  then have "init cfg2 = Inr ?s" by (rule init_valid_grid)
  moreover have "solve ?s = Inl (KeyError ''alpha'')"
    using a by (simp add: solve_def getitem_def)
  ultimately show "\<exists>s. init cfg2 = Inr s \<and> solve s = Inl (KeyError ''alpha'')" by blast
qed

theorem missing_field_errors_witness:
  "no_total_time_config ''total_time'' = None \<and>
   init no_total_time_config = Inl (KeyError ''total_time'') \<and>
   valid_grid_config no_alpha_config 1 5 1 2 \<and> no_alpha_config ''alpha'' = None \<and>
   (\<exists>s. init no_alpha_config = Inr s \<and> solve s = Inl (KeyError ''alpha''))"
proof -
  have t: "no_total_time_config ''total_time'' = None"
    and p: "no_total_time_config ''length'' \<noteq> None" "no_total_time_config ''num_points_x'' \<noteq> None"
      "no_total_time_config ''num_points_t'' \<noteq> None"
    by (simp_all add: no_total_time_config_def)
  have a: "no_alpha_config ''alpha'' = None" by (simp add: no_alpha_config_def)
  from missing_field_errors [of no_total_time_config no_alpha_config 1 5 1 2] t a no_alpha_grid
  have "(\<exists>k. k \<in> {''length'', ''num_points_x'', ''total_time'', ''num_points_t''} \<and>
           no_total_time_config k = None \<and> init no_total_time_config = Inl (KeyError k))"
    and s: "\<exists>s. init no_alpha_config = Inr s \<and> solve s = Inl (KeyError ''alpha'')"
    by blast+
  then obtain k where k: "k \<in> {''length'', ''num_points_x'', ''total_time'', ''num_points_t''}"
    "no_total_time_config k = None" "init no_total_time_config = Inl (KeyError k)" by blast
  have "k = ''total_time''" using k(1,2) p by auto
  then show ?thesis using k(3) t a s no_alpha_grid by simp
qed

text \<open>
  C5 as the specification states it fails on the code: the configuration
  \<open>no_alpha_config\<close> lacks \<^verbatim>\<open>alpha\<close> and is otherwise well-formed, and constructing a
  solver from it succeeds.
\<close>

theorem construction_without_alpha_succeeds:
  "valid_grid_config no_alpha_config 1 5 1 2 \<and>
   no_alpha_config ''alpha'' = None \<and>
   init no_alpha_config =
     Inr \<lparr>config = no_alpha_config, u = [0, 0, 1, 0, 0], dx = 1/4, dt = 1/2\<rparr>"
  using init_valid_grid [OF no_alpha_grid] no_alpha_grid
  by (simp add: numeral_eq_Suc) (simp add: no_alpha_config_def)



text \<open>
  C9. For every valid configuration, a second \<^verbatim>\<open>solve\<close> on the same object starts from
  the field the first call left: the first entry of the second history is the last
  entry of the first history, and the second history has \<open>num_points_t + 1\<close> entries
  again.
\<close>

theorem second_solve_continues:
  assumes "valid_config cfg L nx T nt a"
  shows "\<exists>s out1 out2. init cfg = Inr s \<and> solve s = Inr out1 \<and>
           solve (self_after out1) = Inr out2 \<and>
           history out2 ! 0 = last (history out1) \<and>
           length (history out2) = nat nt + 1"
proof -
  let ?s = "\<lparr>config = cfg, u = (replicate (nat nx) 0)[nat (nx div 2) := 1],
             dx = L / of_int (nx - 1), dt = T / of_int nt\<rparr>"
  let ?r = "a * (T / of_int nt) / (L / of_int (nx - 1))\<^sup>2"
  let ?h = "spec_history ?r (u ?s) (nat nt)"
  let ?s1 = "?s\<lparr>u := last ?h\<rparr>"
  note fs = first_solve [OF assms]
  have "0 < L" "3 \<le> nx"
    using assms by (simp_all add: valid_config_def valid_grid_config_def)
  then have d: "dx ?s1 \<noteq> 0" by simp
  have v: "valid_config (config ?s1) L nx T nt a" using assms by simp
  have "last ?h \<in> set ?h" by (rule last_in_set) simp
  then have "length (last ?h) = length (u ?s)" by (rule spec_history_lengths)
  then have l: "length (u ?s1) = nat nx" by simp
  note sv = solve_valid [OF v l d]
  let ?out1 = "\<lparr>history = ?h, stdout = (if 0.5 < ?r then [StabilityWarning ?r] else []),
                self_after = ?s1\<rparr>"
  have o1: "solve ?s = Inr ?out1" using fs(2) by simp
  obtain out2 where o2: "solve ?s1 = Inr out2" "history out2 = spec_history ?r (last ?h) (nat nt)"
    using sv by simp
  have "history out2 ! 0 = last (history ?out1)" "length (history out2) = nat nt + 1"
    "solve (self_after ?out1) = Inr out2"
    using o2 by simp_all
  then show ?thesis using fs(1) o1 by blast
qed

theorem second_solve_continues_witness:
  "valid_config demo_config 1 5 1 2 (1/64) \<and>
   (\<exists>s out1 out2. init demo_config = Inr s \<and> solve s = Inr out1 \<and>
           solve (self_after out1) = Inr out2 \<and>
           history out1 ! 0 = [0, 0, 1, 0, 0] \<and>
           history out2 ! 0 = [0, 3/16, 19/32, 3/16, 0] \<and>
           length (history out2) = 3)"
proof -
  from second_solve_continues [OF demo_valid] obtain s out1 out2 where
    so: "init demo_config = Inr s" "solve s = Inr out1" "solve (self_after out1) = Inr out2" and
    h: "history out2 ! 0 = last (history out1)" "length (history out2) = nat 2 + 1"
    by blast
  have s: "s = \<lparr>config = demo_config, u = [0, 0, 1, 0, 0], dx = 1/4, dt = 1/2\<rparr>"
    using so(1) by (simp add: demo_init)
  have out: "history out1 = [[0, 0, 1, 0, 0], [0, 1/8, 3/4, 1/8, 0], [0, 3/16, 19/32, 3/16, 0]]"
    using so(2) unfolding s by (auto simp: demo_solve)
  have "history out1 ! 0 = [0, 0, 1, 0, 0]" by (simp add: out)
  moreover have "history out2 ! 0 = [0, 3/16, 19/32, 3/16, 0]" using h(1) by (simp add: out)
  moreover have "length (history out2) = 3" using h(2) by simp
  ultimately show ?thesis using demo_valid so by blast
qed

text \<open>
  C10. Whenever \<^verbatim>\<open>solve\<close> returns, the object it leaves is the one it started from with
  only \<open>u\<close> changed: \<open>config\<close>, \<open>dx\<close> and \<open>dt\<close> are as before, and \<open>u\<close> is the last
  entry of the returned history. For every valid configuration the first \<^verbatim>\<open>solve\<close>
  does return.
\<close>

theorem solve_frame:
  "(solve s = Inr out \<longrightarrow>
      self_after out = s\<lparr>u := last (history out)\<rparr> \<and>
      config (self_after out) = config s \<and> dx (self_after out) = dx s \<and>
      dt (self_after out) = dt s \<and> u (self_after out) = last (history out)) \<and>
   (valid_config cfg L nx T nt a \<longrightarrow>
      (\<exists>s0 out0. init cfg = Inr s0 \<and> solve s0 = Inr out0 \<and>
         config (self_after out0) = cfg \<and> dx (self_after out0) = dx s0 \<and>
         dt (self_after out0) = dt s0 \<and> u (self_after out0) = last (history out0)))"
proof (intro conjI impI)
  assume a: "solve s = Inr out"
  then obtain r nx n c' res' where
    t: "time_steps r nx n (u s) ([] @ [u s]) = Inr (c', res')" and
    o: "out = \<lparr>history = res', stdout = (if r > 0.5 then [StabilityWarning r] else []),
               self_after = s\<lparr>u := c'\<rparr>\<rparr>"
    by (auto simp: solve_def and_then_def split: sum.splits)
  from time_steps_last [OF t] have "last res' = c'" by simp
  then show "self_after out = s\<lparr>u := last (history out)\<rparr>"
    "config (self_after out) = config s" "dx (self_after out) = dx s"
    "dt (self_after out) = dt s" "u (self_after out) = last (history out)"
    by (simp_all add: o)
next
  assume "valid_config cfg L nx T nt a"
  from first_solve [OF this]
  show "\<exists>s0 out0. init cfg = Inr s0 \<and> solve s0 = Inr out0 \<and>
         config (self_after out0) = cfg \<and> dx (self_after out0) = dx s0 \<and>
         dt (self_after out0) = dt s0 \<and> u (self_after out0) = last (history out0)"
    by auto
qed

theorem solve_frame_witness:
  "solve \<lparr>config = demo_config, u = [0, 0, 1, 0, 0], dx = 1/4, dt = 1/2\<rparr> =
     Inr \<lparr>history = [[0, 0, 1, 0, 0], [0, 1/8, 3/4, 1/8, 0], [0, 3/16, 19/32, 3/16, 0]],
          stdout = [],
          self_after = \<lparr>config = demo_config, u = [0, 3/16, 19/32, 3/16, 0],
                         dx = 1/4, dt = 1/2\<rparr>\<rparr> \<and>
   \<lparr>config = demo_config, u = [0, 3/16, 19/32, 3/16, 0], dx = 1/4, dt = 1/2\<rparr> =
     \<lparr>config = demo_config, u = [0, 0, 1, 0, 0], dx = 1/4, dt = 1/2\<rparr>
       \<lparr>u := last [[0, 0, 1, 0, 0], [0, 1/8, 3/4, 1/8, 0], [0, 3/16, 19/32, 3/16, 0]]\<rparr> \<and>
   valid_config demo_config 1 5 1 2 (1/64) \<and>
   (\<exists>s0 out0. init demo_config = Inr s0 \<and> solve s0 = Inr out0 \<and>
         config (self_after out0) = demo_config \<and> dx (self_after out0) = dx s0 \<and>
         dt (self_after out0) = dt s0 \<and> u (self_after out0) = last (history out0))"
  using solve_frame [of "\<lparr>config = demo_config, u = [0, 0, 1, 0, 0], dx = 1/4, dt = 1/2\<rparr>"
      "\<lparr>history = [[0, 0, 1, 0, 0], [0, 1/8, 3/4, 1/8, 0], [0, 3/16, 19/32, 3/16, 0]],
          stdout = [],
          self_after = \<lparr>config = demo_config, u = [0, 3/16, 19/32, 3/16, 0],
                         dx = 1/4, dt = 1/2\<rparr>\<rparr>" demo_config 1 5 1 2 "1/64"]
    demo_solve demo_valid
  by simp

end
